theory Spec2Isabelle
  imports Main
begin

section \<open>JavaScript values\<close>

text \<open>
  The permissions documents, queries and route fields of tmix-security are untyped
  JavaScript values. They are modelled by one tagged union. Numbers are the integers
  (the documents of the repository hold identifiers such as \<open>1, 2, 3\<close>); a function
  value is a reference into a table of callables kept in the state. An object is the
  list of its own properties; the first binding of a key is the one in effect.
\<close>

datatype jsval =
    Undefined
  | Null
  | Bool bool
  | Num int
  | Str string
  | Arr "jsval list"
  | Obj "(string \<times> jsval) list"
  | Fun nat

text \<open>Errors that the source raises with \<open>throw new Error(...)\<close>, named after their
  messages, the runtime's \<open>TypeError\<close>, and an exception raised by a caller-supplied
  function.\<close>

datatype error =
    CouldNotFindRoute string
  | CustomAuthorizationNotAFunction
  | RouteCustomAuthorizationNotSet string
  | UnknownRouteForDeniedRoute string
  | TypeError
  | Thrown jsval

text \<open>\<open>!!v\<close>: the truthiness of a value.\<close>

fun truthy :: "jsval \<Rightarrow> bool" where
  "truthy Undefined = False"
| "truthy Null = False"
| "truthy (Bool b) = b"
| "truthy (Num n) = (n \<noteq> 0)"
| "truthy (Str s) = (s \<noteq> [])"
| "truthy (Arr xs) = True"
| "truthy (Obj kvs) = True"
| "truthy (Fun f) = True"

text \<open>\<open>typeof v === 'string'\<close>, \<open>typeof v === 'function'\<close>, \<open>v instanceof Array\<close>.\<close>

fun is_string :: "jsval \<Rightarrow> bool" where
  "is_string (Str s) = True"
| "is_string v = False"

fun is_function :: "jsval \<Rightarrow> bool" where
  "is_function (Fun f) = True"
| "is_function v = False"


text \<open>
  A property name is an array index when it is the canonical decimal form of a natural
  number: digits only, and no leading zero unless it is \<open>0\<close> itself.
\<close>

definition is_digit :: "char \<Rightarrow> bool" where
  "is_digit c = (48 \<le> (of_char c :: nat) \<and> (of_char c :: nat) \<le> 57)"

fun digits_value :: "nat \<Rightarrow> string \<Rightarrow> nat option" where
  "digits_value acc [] = Some acc"
| "digits_value acc (c # cs) =
     (if is_digit c then digits_value (10 * acc + (of_char c - 48)) cs else None)"

definition array_index :: "string \<Rightarrow> nat option" where
  "array_index k =
     (case k of
        [] \<Rightarrow> None
      | c # cs \<Rightarrow> if c = CHR ''0'' \<and> cs \<noteq> [] then None else digits_value 0 k)"

text \<open>
  What a value does not hold itself it inherits from the built-in objects of the
  JavaScript runtime, along its prototype chain: \<open>toString\<close> for every object,
  \<open>push\<close> for an array, and so on. The runtime is not part of the repository and its
  members differ from one engine to the next, so it is a parameter of the model: the
  value the runtime supplies for a value and a name, \<open>undefined\<close> when it supplies
  none. For a function, whose own \<open>length\<close> and \<open>name\<close> the model does not hold,
  the runtime supplies these too.
\<close>

type_synonym runtime = "jsval \<Rightarrow> string \<Rightarrow> jsval"

text \<open>
  \<open>cursor[token]\<close> for a string \<open>token\<close>: reading a property of \<open>null\<close> or
  \<open>undefined\<close> raises a \<open>TypeError\<close>; an object answers with the value bound to
  the key; an array answers to an index in range and to \<open>length\<close>; so does a string,
  whose indices give one-character strings; for every other name the answer is what
  the value inherits.
\<close>

definition indexed :: "'a list \<Rightarrow> string \<Rightarrow> 'a option" where
  "indexed xs k =
     (case array_index k of
        None \<Rightarrow> None
      | Some i \<Rightarrow> if i < length xs then Some (xs ! i) else None)"

fun getProp :: "runtime \<Rightarrow> jsval \<Rightarrow> string \<Rightarrow> error + jsval" where
  "getProp inh Undefined k = Inl TypeError"
| "getProp inh Null k = Inl TypeError"
| "getProp inh (Obj kvs) k =
     Inr (case map_of kvs k of None \<Rightarrow> inh (Obj kvs) k | Some v \<Rightarrow> v)"
| "getProp inh (Arr xs) k =
     Inr (if k = ''length'' then Num (int (length xs))
          else case indexed xs k of None \<Rightarrow> inh (Arr xs) k | Some v \<Rightarrow> v)"
| "getProp inh (Str s) k =
     Inr (if k = ''length'' then Num (int (length s))
          else case indexed s k of None \<Rightarrow> inh (Str s) k | Some c \<Rightarrow> Str [c])"
| "getProp inh v k = Inr (inh v k)"

text \<open>
  \<open>xs.indexOf(token)\<close> for a string \<open>token\<close>: the first position holding a value
  strictly equal to it, which only a string with the same characters is; \<open>None\<close>
  stands for \<open>-1\<close>.
\<close>

fun indexOf :: "jsval list \<Rightarrow> string \<Rightarrow> nat option" where
  "indexOf [] t = None"
| "indexOf (x # xs) t =
     (if x = Str t then Some 0 else map_option Suc (indexOf xs t))"

text \<open>
  \<open>query.split(sep)\<close> for a non-empty separator: the pieces between the leftmost
  non-overlapping occurrences of \<open>sep\<close>; the characters read since the last
  occurrence are kept, reversed, in \<open>acc\<close>.
\<close>

function split_from :: "string \<Rightarrow> string \<Rightarrow> string \<Rightarrow> string list" where
  "split_from sep acc [] = [rev acc]"
| "split_from sep acc (c # cs) =
     (if sep \<noteq> [] \<and> take (length sep) (c # cs) = sep
      then rev acc # split_from sep [] (drop (length sep) (c # cs))
      else split_from sep (c # acc) cs)"
  by pat_completeness auto
termination
  by (relation "measure (\<lambda>(sep, acc, s). length s)") auto

definition split :: "string \<Rightarrow> string \<Rightarrow> string list" where
  "split query sep = split_from sep [] query"

section \<open>The hierarchical query matcher\<close>

text \<open>
  The loop of \<open>findIn\<close> over the tokens, with its \<open>break\<close>: the result is the
  cursor the loop ends with. \<open>inh\<close> is the runtime the call runs in.
\<close>

fun findIn_loop :: "runtime \<Rightarrow> jsval \<Rightarrow> string list \<Rightarrow> error + jsval" where
  "findIn_loop inh cursor [] = Inr cursor"
| "findIn_loop inh cursor (token # rest) =
     (case getProp inh cursor token of
        Inl e \<Rightarrow> Inl e
      | Inr v \<Rightarrow>
          if v \<noteq> Undefined then findIn_loop inh v rest
          else (case cursor of
                  Arr xs \<Rightarrow>
                    (case indexOf xs token of
                       Some i \<Rightarrow> findIn_loop inh (xs ! i) rest
                     | None \<Rightarrow> Inr Null)
                | _ \<Rightarrow> Inr Null))"

text \<open>\<open>delimiter || '/'\<close>: an omitted or empty delimiter gives \<open>/\<close>.\<close>

definition delimiter_or_slash :: "string option \<Rightarrow> string" where
  "delimiter_or_slash delimiter =
     (case delimiter of None \<Rightarrow> ''/'' | Some d \<Rightarrow> if d = [] then ''/'' else d)"

definition findIn :: "runtime \<Rightarrow> string \<Rightarrow> jsval \<Rightarrow> string option \<Rightarrow> error + bool" where
  "findIn inh query object delimiter =
     (case findIn_loop inh object (split query (delimiter_or_slash delimiter)) of
        Inl e \<Rightarrow> Inl e
      | Inr cursor \<Rightarrow> Inr (truthy cursor))"

definition matcher_doc :: jsval where
  "matcher_doc =
     Obj [(''GET'', Obj [(''page'', Arr [Num 1, Num 2, Num 3]),
                         (''other'', Arr [Num 1, Str ''a/b''])]),
          (''PUT'', Obj [(''page'', Arr [Num 1])])]"

section \<open>Routes, collaborators and the provider's state\<close>

text \<open>
  A route object of the routing collaborator, reduced to the three fields the
  provider reads and writes. A field that the object does not hold reads as
  \<open>undefined\<close>: the built-in objects of the runtime are taken to have no member named
  \<open>permissions\<close>, \<open>customAuthorization\<close> or \<open>deniedRoute\<close>.
\<close>

record route =
  permissions :: jsval
  customAuthorization :: jsval
  deniedRoute :: jsval

text \<open>
  A caller-supplied function of \<open>(query, permissions, route, routeParams)\<close>: it answers
  with a value or raises. Such functions are taken to be pure: they do not call back
  into the provider.
\<close>

type_synonym callable = "jsval \<Rightarrow> jsval \<Rightarrow> route \<Rightarrow> jsval \<Rightarrow> error + jsval"

text \<open>What a promise has become once the pending transport request has been answered.\<close>

datatype promise = Resolved jsval | Rejected jsval | Pending

text \<open>The calls made on \<open>$location\<close>: \<open>path(target)\<close> and \<open>replace()\<close>.\<close>

datatype nav_call = SetPath jsval | Replace

text \<open>
  The variables of the provider's closure together with the injected collaborators,
  each specified at its interface only:
  \<^item> \<open>routes\<close> is what \<open>$route.routes[key]\<close> yields: a route registered under the
    key or, the table being a plain object, a member that the table inherits from
    the runtime under that name (\<open>toString\<close>, say), read as a route object;
    \<open>None\<close> when it yields \<open>undefined\<close>;
  \<^item> \<open>currentPath\<close> is \<open>$route.current.$$route.originalPath\<close>, \<open>currentParams\<close> is
    \<open>$route.current.params\<close>;
  \<^item> \<open>locationPath\<close> is what \<open>$location.path()\<close> answers, \<open>navigation\<close> the calls
    made on \<open>$location\<close>;
  \<^item> \<open>transport\<close> is what \<open>$http.get\<close> answers for a URL (\<open>Inr\<close> the response's
    data, \<open>Inl\<close> the failed response), \<open>requests\<close> the URLs requested so far;
  \<^item> \<open>permissionsCache\<close> is the \<open>$cacheFactory\<close> cache, a plain store from keys to
    documents as the specification describes it;
  \<^item> \<open>callables\<close> gives each function value its behaviour, \<open>inherited\<close> is the
    runtime;
  \<^item> \<open>console\<close> holds the lines \<open>log\<close> has printed: the literal text and the value
    appended to it, if any.
  A promise is followed until it settles: nothing else runs between a request and its
  answer.
\<close>

record state =
  routes :: "string \<rightharpoonup> route"
  currentPath :: string
  currentParams :: jsval
  locationPath :: string
  navigation :: "nav_call list"
  transport :: "string \<Rightarrow> jsval + jsval"
  requests :: "string list"
  callables :: "nat \<Rightarrow> callable"
  inherited :: runtime
  defaultPermissions :: jsval
  permissionsCache :: "string \<rightharpoonup> jsval"
  globalCustomAuthorization :: jsval
  defaultAccess :: bool
  debug :: bool
  console :: "(string \<times> jsval option) list"

text \<open>
  A call of the provider runs on the state and either returns or raises; the state it
  leaves behind is kept in both cases.
\<close>

type_synonym 'a action = "state \<Rightarrow> (error + 'a) \<times> state"

definition return :: "'a \<Rightarrow> 'a action" where
  "return x s = (Inr x, s)"

definition throw :: "error \<Rightarrow> 'a action" where
  "throw e s = (Inl e, s)"

definition andThen :: "'a action \<Rightarrow> ('a \<Rightarrow> 'b action) \<Rightarrow> 'b action" where
  "andThen m f s = (case m s of (Inl e, s') \<Rightarrow> (Inl e, s') | (Inr x, s') \<Rightarrow> f x s')"

definition read :: "(state \<Rightarrow> 'a) \<Rightarrow> 'a action" where
  "read f s = (Inr (f s), s)"

definition modify :: "(state \<Rightarrow> state) \<Rightarrow> unit action" where
  "modify f s = (Inr (), f s)"

definition lift :: "error + 'a \<Rightarrow> 'a action" where
  "lift r = (case r of Inl e \<Rightarrow> throw e | Inr x \<Rightarrow> return x)"

text \<open>\<open>method(query, permissions, route, routeParams)\<close>\<close>

definition call :: "jsval \<Rightarrow> jsval \<Rightarrow> jsval \<Rightarrow> route \<Rightarrow> jsval \<Rightarrow> jsval action" where
  "call method query perms rt params =
     (case method of
        Fun f \<Rightarrow> andThen (read (\<lambda>s. callables s f query perms rt params)) lift
      | _ \<Rightarrow> throw TypeError)"

text \<open>The state the provider starts in: no default permissions, no global override,
  deny by default, debugging off, an empty cache.\<close>

definition initial :: "(string \<rightharpoonup> route) \<Rightarrow> string \<Rightarrow> jsval \<Rightarrow> string \<Rightarrow>
    (string \<Rightarrow> jsval + jsval) \<Rightarrow> (nat \<Rightarrow> callable) \<Rightarrow> runtime \<Rightarrow> state" where
  "initial rts cur params loc http funs inh =
     \<lparr> routes = rts, currentPath = cur, currentParams = params, locationPath = loc,
       navigation = [], transport = http, requests = [], callables = funs,
       inherited = inh, defaultPermissions = Undefined, permissionsCache = Map.empty,
       globalCustomAuthorization = Undefined, defaultAccess = False, debug = False,
       console = [] \<rparr>"

section \<open>Convenience methods\<close>

definition log :: "string \<Rightarrow> jsval option \<Rightarrow> unit action" where
  "log message appended =
     andThen (read debug) (\<lambda>d.
       if d then modify (\<lambda>s. s\<lparr>console := console s @ [(message, appended)]\<rparr>)
       else return ())"

definition turnOffDebugging :: "unit action" where
  "turnOffDebugging = modify (\<lambda>s. s\<lparr>debug := False\<rparr>)"

definition turnOnDebugging :: "unit action" where
  "turnOnDebugging = modify (\<lambda>s. s\<lparr>debug := True\<rparr>)"

definition getCurrentRoutePath :: "string action" where
  "getCurrentRoutePath = read currentPath"

text \<open>\<open>!!$route.routes[route]\<close>: true for a registered route and also for a name under
  which the table inherits a member, since \<open>routes\<close> holds both.\<close>

definition routeExists :: "string \<Rightarrow> bool action" where
  "routeExists rt = read (\<lambda>s. routes s rt \<noteq> None)"

text \<open>\<open>getRoute\<close> returns what the table yields under the path, which \<open>routeExists\<close>
  has found to be there.\<close>

definition getRoute :: "string \<Rightarrow> route action" where
  "getRoute routePath =
     andThen (routeExists routePath) (\<lambda>known.
       if \<not> known then throw (CouldNotFindRoute routePath)
       else read (\<lambda>s. the (routes s routePath)))"

text \<open>\<open>routePath || getCurrentRoutePath()\<close>: an omitted or empty route path stands for
  the current route.\<close>

definition orCurrentRoutePath :: "string option \<Rightarrow> string action" where
  "orCurrentRoutePath routePath =
     (case routePath of
        None \<Rightarrow> getCurrentRoutePath
      | Some p \<Rightarrow> if p = [] then getCurrentRoutePath else return p)"

text \<open>A route path appended to a message: an omitted one prints as \<open>undefined\<close>.\<close>

definition shown :: "string option \<Rightarrow> jsval" where
  "shown routePath = (case routePath of None \<Rightarrow> Undefined | Some p \<Rightarrow> Str p)"

text \<open>A route object used as a string, in a message or as a key: it converts as a plain
  object does.\<close>

definition route_as_string :: "route \<Rightarrow> string" where
  "route_as_string rt = ''[object Object]''"

section \<open>The permission resolver\<close>

definition getPermissionsFromRoute :: "string option \<Rightarrow> jsval action" where
  "getPermissionsFromRoute routePath =
     andThen (orCurrentRoutePath routePath) (\<lambda>p.
     andThen (getRoute p) (\<lambda>rt.
     andThen (read defaultPermissions) (\<lambda>dflt.
     andThen (if \<not> truthy (permissions rt)
              then log ''Using default permissions.'' None else return ()) (\<lambda>_.
     return (if truthy (permissions rt) then permissions rt else dflt)))))"

text \<open>\<open>permissionsCache.get(key)\<close>: the document stored under the key, or \<open>undefined\<close>.\<close>

definition cache_get :: "string \<Rightarrow> jsval action" where
  "cache_get key =
     read (\<lambda>s. case permissionsCache s key of None \<Rightarrow> Undefined | Some d \<Rightarrow> d)"

definition cache_put :: "string \<Rightarrow> jsval \<Rightarrow> unit action" where
  "cache_put key d = modify (\<lambda>s. s\<lparr>permissionsCache := (permissionsCache s)(key \<mapsto> d)\<rparr>)"

definition getPermissionsSync :: "string option \<Rightarrow> jsval action" where
  "getPermissionsSync routePath =
     andThen (getPermissionsFromRoute routePath) (\<lambda>routePermissions.
       case routePermissions of
         Str url \<Rightarrow>
           andThen (cache_get url) (\<lambda>perms.
           andThen (if truthy perms
                    then log ''Getting permissions from the cache for route: ''
                           (Some (shown routePath))
                    else log ''Could not find cached permissions for route: ''
                           (Some (shown routePath))) (\<lambda>_.
           return perms))
       | _ \<Rightarrow>
           andThen (log ''Getting permissions from an object for route: ''
                      (Some (shown routePath))) (\<lambda>_.
           return routePermissions))"

definition retrievePermissions :: "string \<Rightarrow> promise action" where
  "retrievePermissions url =
     andThen (modify (\<lambda>s. s\<lparr>requests := requests s @ [url]\<rparr>)) (\<lambda>_.
     andThen (read (\<lambda>s. transport s url)) (\<lambda>response.
       case response of
         Inr perms \<Rightarrow>
           andThen (log ''Permissions returned from: '' (Some (Str url))) (\<lambda>_.
           andThen (cache_put url perms) (\<lambda>_.
           return (Resolved perms)))
       | Inl failure \<Rightarrow>
           andThen (log ''Failed to retrieve permissions from: '' (Some (Str url))) (\<lambda>_.
           return (Rejected failure))))"

definition getPermissions :: "string option \<Rightarrow> promise action" where
  "getPermissions routePath =
     andThen (getPermissionsFromRoute routePath) (\<lambda>routePermissions.
     andThen (getPermissionsSync routePath) (\<lambda>perms.
       case routePermissions of
         Str url \<Rightarrow>
           if perms = Undefined
           then andThen (log ''Retrieving permissions from a URL; expect a promise for route: ''
                           (Some (shown routePath))) (\<lambda>_.
                retrievePermissions url)
           else return (Resolved perms)
       | _ \<Rightarrow> return (Resolved perms)))"

definition setPermissions :: "jsval \<Rightarrow> string option \<Rightarrow> unit action" where
  "setPermissions perms routePath =
     andThen (orCurrentRoutePath routePath) (\<lambda>p.
     andThen (getRoute p) (\<lambda>rt.
     andThen (log ''Manually set permissions on: '' (Some (Str (route_as_string rt)))) (\<lambda>_.
     modify (\<lambda>s. s\<lparr>routes := (routes s)(p \<mapsto> rt\<lparr>permissions := perms\<rparr>)\<rparr>))))"

definition setDefaultPermissions :: "jsval \<Rightarrow> unit action" where
  "setDefaultPermissions perms =
     andThen (log ''Manually set default permissions; these will be overriden by any specified route permissions.'' None) (\<lambda>_.
     modify (\<lambda>s. s\<lparr>defaultPermissions := perms\<rparr>))"

definition clearPermissionsCache :: "unit action" where
  "clearPermissionsCache = modify (\<lambda>s. s\<lparr>permissionsCache := Map.empty\<rparr>)"

section \<open>Override strategies and the default access\<close>

definition setCustomAuthorization :: "jsval \<Rightarrow> unit action" where
  "setCustomAuthorization callbackFunction =
     modify (\<lambda>s. s\<lparr>globalCustomAuthorization := callbackFunction\<rparr>)"

definition hasCustomAuthorization :: "bool action" where
  "hasCustomAuthorization = read (\<lambda>s. is_function (globalCustomAuthorization s))"

definition getCustomAuthorization :: "jsval action" where
  "getCustomAuthorization =
     andThen hasCustomAuthorization (\<lambda>has.
       if \<not> has then throw CustomAuthorizationNotAFunction
       else read globalCustomAuthorization)"

definition hasCustomRouteAuthorization :: "string \<Rightarrow> bool action" where
  "hasCustomRouteAuthorization routePath =
     andThen (getRoute routePath) (\<lambda>rt.
     return (routePath \<noteq> [] \<and> is_function (customAuthorization rt)))"

definition getCustomRouteAuthorization :: "string option \<Rightarrow> jsval action" where
  "getCustomRouteAuthorization routePath =
     andThen (orCurrentRoutePath routePath) (\<lambda>p.
     andThen (hasCustomRouteAuthorization p) (\<lambda>has.
       if \<not> has then throw (RouteCustomAuthorizationNotSet p)
       else andThen (getRoute p) (\<lambda>rt. return (customAuthorization rt))))"

definition setDefaultAccess :: "jsval \<Rightarrow> unit action" where
  "setDefaultAccess allowOrDeny = modify (\<lambda>s. s\<lparr>defaultAccess := truthy allowOrDeny\<rparr>)"

definition getDefaultAccess :: "bool action" where
  "getDefaultAccess = read defaultAccess"

section \<open>The authorization decision\<close>

text \<open>
  The chain of \<open>isAuthorized\<close> once the route, the route parameters and the
  permissions are at hand. The call that fetches the route's own strategy passes no
  route path, as in the source.
\<close>

definition isAuthorized_chain ::
    "jsval \<Rightarrow> string \<Rightarrow> route \<Rightarrow> jsval \<Rightarrow> jsval \<Rightarrow> bool action" where
  "isAuthorized_chain query routePath rt routeParams perms =
     andThen (hasCustomRouteAuthorization routePath) (\<lambda>perRoute.
       if perRoute
       then andThen (log ''Authorizing with a custom route function.'' None) (\<lambda>_.
            andThen (getCustomRouteAuthorization None) (\<lambda>method.
            andThen (call method query perms rt routeParams) (\<lambda>r.
            return (truthy r))))
       else andThen hasCustomAuthorization (\<lambda>global.
         if global
         then andThen (log ''Authorizing with a custom function.'' None) (\<lambda>_.
              andThen getCustomAuthorization (\<lambda>method.
              andThen (call method query perms rt routeParams) (\<lambda>r.
              return (truthy r))))
         else (case query of
                 Str q \<Rightarrow>
                   (case perms of
                      Arr xs \<Rightarrow>
                        andThen (log ''Default authorization: looking for a route in a permissions array.'' None) (\<lambda>_.
                        return (indexOf xs q \<noteq> None))
                    | _ \<Rightarrow>
                        andThen (log ''Looking for the given query in a permissions object.'' None) (\<lambda>_.
                        andThen (read inherited) (\<lambda>inh.
                        lift (findIn inh q perms None))))
               | Fun f \<Rightarrow>
                   andThen (log ''Default authorization: looking for a route in a permissions array.'' None) (\<lambda>_.
                   andThen (call query query perms rt routeParams) (\<lambda>r.
                   return (truthy r)))
               | _ \<Rightarrow>
                   andThen (log ''No authorization method found; using default access.'' None) (\<lambda>_.
                   getDefaultAccess))))"

text \<open>\<open>getPermissionsSync(routePath) || {}\<close>\<close>

definition or_empty_object :: "jsval \<Rightarrow> jsval" where
  "or_empty_object v = (if truthy v then v else Obj [])"

definition isAuthorized :: "jsval \<Rightarrow> string option \<Rightarrow> bool action" where
  "isAuthorized query routePath =
     andThen (orCurrentRoutePath routePath) (\<lambda>p.
     andThen (getRoute p) (\<lambda>rt.
     andThen (read currentParams) (\<lambda>routeParams.
     andThen (getPermissionsSync (Some p)) (\<lambda>resolved.
     isAuthorized_chain query p rt routeParams (or_empty_object resolved)))))"

section \<open>The navigation gate\<close>

definition getAccessDeniedRouteFor :: "string option \<Rightarrow> jsval action" where
  "getAccessDeniedRouteFor routePath =
     andThen (orCurrentRoutePath routePath) (\<lambda>p.
     andThen (getRoute p) (\<lambda>rt.
       if truthy (deniedRoute rt)
       then andThen (log ''Found an access denied route to: '' (Some (deniedRoute rt))) (\<lambda>_.
            return (deniedRoute rt))
       else return (Str ''/forbidden'')))"

definition setAccessDeniedRouteFor :: "jsval \<Rightarrow> string option \<Rightarrow> unit action" where
  "setAccessDeniedRouteFor target routePath =
     andThen (orCurrentRoutePath routePath) (\<lambda>p.
     andThen (getRoute p) (\<lambda>rt.
     andThen (read (\<lambda>s. routes s (route_as_string rt))) (\<lambda>found.
       if found = None then throw (UnknownRouteForDeniedRoute (route_as_string rt))
       else modify (\<lambda>s. s\<lparr>routes := (routes s)(p \<mapsto> rt\<lparr>deniedRoute := target\<rparr>)\<rparr>))))"




section \<open>Notions used by the properties\<close>

text \<open>The route path a call works on: the one given, or the current one.\<close>

definition path_of :: "string option \<Rightarrow> state \<Rightarrow> string" where
  "path_of routePath s =
     (case routePath of
        None \<Rightarrow> currentPath s
      | Some p \<Rightarrow> if p = [] then currentPath s else p)"

text \<open>Two states that differ at most in what has been printed to the console.\<close>

definition same_but_console :: "state \<Rightarrow> state \<Rightarrow> bool" where
  "same_but_console s s' = (s' = s\<lparr>console := console s'\<rparr>)"

definition quiet :: "'a action \<Rightarrow> bool" where
  "quiet m = (\<forall>s. same_but_console s (snd (m s)))"

text \<open>
  What a route's permissions resolve to without a fetch: the route's own permissions or
  the default ones and, when that is a source identifier, the cached document.
\<close>

definition route_permissions :: "state \<Rightarrow> route \<Rightarrow> jsval" where
  "route_permissions s rt =
     (if truthy (permissions rt) then permissions rt else defaultPermissions s)"

definition resolveSync :: "state \<Rightarrow> route \<Rightarrow> jsval" where
  "resolveSync s rt =
     (case route_permissions s rt of
        Str url \<Rightarrow> (case permissionsCache s url of None \<Rightarrow> Undefined | Some d \<Rightarrow> d)
      | v \<Rightarrow> v)"

section \<open>The routes of the repository's test suite\<close>

definition no_fields :: route where
  "no_fields = \<lparr> permissions = Undefined, customAuthorization = Undefined,
                  deniedRoute = Undefined \<rparr>"

text \<open>The routes the test suite registers.\<close>

definition test_registered :: "(string \<times> route) list" where
  "test_registered =
     [(''/'', no_fields\<lparr>permissions :=
          Obj [(''canView'', Arr [Str ''...'']), (''canEdit'', Arr [Num 1, Num 2, Num 3])]\<rparr>),
      (''/no-permissions'', no_fields),
      (''/route-default-auth'', no_fields\<lparr>permissions := Arr [Str ''/route-default-auth'']\<rparr>),
      (''/grab-from-url'', no_fields\<lparr>permissions := Str ''http://example.com/my-roles''\<rparr>),
      (''/override-auth'',
         no_fields\<lparr>permissions := Arr [Num 1, Num 2, Num 3], customAuthorization := Fun 0\<rparr>),
      (''/test-custom-redirect'',
         no_fields\<lparr>permissions := Obj [], deniedRoute := Str ''/a-different-access-denied''\<rparr>),
      (''/set-permissions-on-route'', no_fields)]"

text \<open>
  The members that every object inherits from \<open>Object.prototype\<close> in ECMAScript 5.1,
  and a runtime that supplies these members, each a built-in function, to every value
  and supplies nothing else; function \<open>100\<close> stands for the built-in functions.
\<close>

definition object_prototype_names :: "string list" where
  "object_prototype_names =
     [''constructor'', ''toString'', ''toLocaleString'', ''valueOf'', ''hasOwnProperty'',
      ''isPrototypeOf'', ''propertyIsEnumerable'']"

definition object_members :: runtime where
  "object_members v k = (if k \<in> set object_prototype_names then Fun 100 else Undefined)"

text \<open>
  What the route table of the test suite yields under a key: the route registered
  under it or, the table being a plain object, the member it inherits under that name,
  which holds none of the three fields.
\<close>

definition test_routes :: "string \<rightharpoonup> route" where
  "test_routes key =
     (case map_of test_registered key of
        Some rt \<Rightarrow> Some rt
      | None \<Rightarrow> if key \<in> set object_prototype_names then Some no_fields else None)"

text \<open>
  Function \<open>0\<close> is the strategy of \<open>/override-auth\<close>, \<open>query === 1\<close>; function \<open>1\<close>
  is the strategy of the README, \<open>permissions.canView.indexOf(query) !== -1\<close>, on
  permissions whose \<open>canView\<close> is a sequence or is missing, where reading
  \<open>indexOf\<close> of \<open>undefined\<close> raises a \<open>TypeError\<close>; function \<open>2\<close> always
  answers \<open>false\<close>.
\<close>

definition test_callables :: "nat \<Rightarrow> callable" where
  "test_callables f query perms rt params =
     (if f = 0 then Inr (Bool (query = Num 1))
      else if f = 1 then
        (case getProp object_members perms ''canView'' of
           Inl e \<Rightarrow> Inl e
         | Inr (Arr xs) \<Rightarrow> Inr (Bool (query \<in> set xs))
         | Inr v \<Rightarrow> Inl TypeError)
      else if f = 2 then Inr (Bool False)
      else Inr Undefined)"

text \<open>The transport of the test suite answers one URL; any other request fails.\<close>

definition test_transport :: "string \<Rightarrow> jsval + jsval" where
  "test_transport url =
     (if url = ''http://example.com/my-roles'' then Inr (Str ''...'')
      else Inl (Obj [(''status'', Num 404)]))"

definition test_state :: "string \<Rightarrow> state" where
  "test_state cur =
     initial test_routes cur (Obj []) cur test_transport test_callables object_members"

text \<open>The test state with the permissions of the route \<open>/\<close> replaced.\<close>

definition with_permissions :: "jsval \<Rightarrow> state" where
  "with_permissions perms =
     (test_state ''/'')\<lparr>routes := test_routes(''/'' \<mapsto> no_fields\<lparr>permissions := perms\<rparr>)\<rparr>"

text \<open>The test state with one more route, registered under the path
  \<open>[object Object]\<close>.\<close>

definition with_object_route :: state where
  "with_object_route =
     (test_state ''/'')\<lparr>routes := test_routes(''[object Object]'' \<mapsto> no_fields)\<rparr>"

text \<open>The test state with the strategy \<open>f\<close> attached to the route \<open>/\<close>.\<close>

definition with_root_strategy :: "nat \<Rightarrow> state" where
  "with_root_strategy f =
     (test_state ''/'')\<lparr>routes := test_routes(''/'' \<mapsto> no_fields\<lparr>customAuthorization := Fun f\<rparr>)\<rparr>"

section \<open>The descent of the matcher as a relation\<close>

text \<open>
  The descent as the source performs it, as a relation: a cursor advances through a
  property named by the token, its own or inherited, whose value is not
  \<open>undefined\<close>; failing that, a sequence advances through an element strictly equal to
  the token.
\<close>

inductive reaches :: "runtime \<Rightarrow> jsval \<Rightarrow> string list \<Rightarrow> jsval \<Rightarrow> bool"
  for inh :: runtime where
  reaches_end: "reaches inh cursor [] cursor"
| reaches_property:
    "getProp inh cursor token = Inr v \<Longrightarrow> v \<noteq> Undefined \<Longrightarrow>
     reaches inh v rest final \<Longrightarrow>
     reaches inh cursor (token # rest) final"
| reaches_element:
    "getProp inh (Arr xs) token = Inr Undefined \<Longrightarrow> Str token \<in> set xs \<Longrightarrow>
     reaches inh (Str token) rest final \<Longrightarrow>
     reaches inh (Arr xs) (token # rest) final"

code_pred reaches .

section \<open>Sequences of calls, and the state in which the navigation gate decides\<close>

text \<open>\<open>getPermissions\<close> called for one route after the other.\<close>

fun getPermissions_each :: "string option list \<Rightarrow> state \<Rightarrow> (error + promise) list \<times> state" where
  "getPermissions_each [] s = ([], s)"
| "getPermissions_each (routePath # rest) s =
     (case getPermissions routePath s of
        (r, s1) \<Rightarrow> (case getPermissions_each rest s1 of (rs, s2) \<Rightarrow> (r # rs, s2)))"






text \<open>
  The README's advanced example: a route whose permissions are fetched from a URL and
  whose strategy is \<open>permissions.canView.indexOf(query) !== -1\<close>; the transport does
  not answer that URL.
\<close>

definition readme_state :: state where
  "readme_state =
     (test_state ''/view'')\<lparr>routes := test_routes(''/view'' \<mapsto>
        no_fields\<lparr>permissions := Str ''http://example.com/api/Permissions'',
                   customAuthorization := Fun 1\<rparr>)\<rparr>"

text \<open>The test state on the route \<open>/grab-from-url\<close> with a transport that fails.\<close>

definition failing_state :: state where
  "failing_state =
     (test_state ''/grab-from-url'')\<lparr>transport := (\<lambda>url. Inl (Obj [(''status'', Num 500)]))\<rparr>"

text \<open>The same, with the default access set to allow.\<close>

definition allowing_state :: state where
  "allowing_state = failing_state\<lparr>defaultAccess := True\<rparr>"

text \<open>The test state with the README's strategy as the global override.\<close>

definition with_global_strategy :: state where
  "with_global_strategy = (test_state ''/'')\<lparr>globalCustomAuthorization := Fun 1\<rparr>"

section \<open>Properties\<close>

subsection \<open>Running actions\<close>

lemma andThen_return [simp]: "andThen (return x) f = f x"
  by (rule ext) (simp add: andThen_def return_def)

lemma andThen_throw [simp]: "andThen (throw e) f = throw e"
  by (rule ext) (simp add: andThen_def throw_def)

lemma andThen_read [simp]: "andThen (read g) f s = f (g s) s"
  by (simp add: andThen_def read_def)

lemma andThen_modify [simp]: "andThen (modify g) f s = f () (g s)"
  by (simp add: andThen_def modify_def)

lemma andThen_Inr: "m s = (Inr x, s') \<Longrightarrow> andThen m f s = f x s'"
  by (simp add: andThen_def)

lemma andThen_Inl: "m s = (Inl e, s') \<Longrightarrow> andThen m f s = (Inl e, s')"
  by (simp add: andThen_def)

lemma log_apply:
  "log msg a s = (Inr (), if debug s then s\<lparr>console := console s @ [(msg, a)]\<rparr> else s)"
  by (simp add: log_def modify_def return_def)

lemma andThen_log:
  "andThen (log msg a) f s =
     f () (if debug s then s\<lparr>console := console s @ [(msg, a)]\<rparr> else s)"
  by (simp add: andThen_def log_apply)

subsection \<open>Actions that only print\<close>

lemma same_refl [simp]: "same_but_console s s"
  by (simp add: same_but_console_def)

lemma same_trans:
  "same_but_console s s' \<Longrightarrow> same_but_console s' s'' \<Longrightarrow> same_but_console s s''"
  unfolding same_but_console_def
  by (metis state.surjective state.update_convs(15))

lemma quiet_return [intro!, simp]: "quiet (return x)"
  by (simp add: quiet_def return_def)

lemma quiet_throw [intro!, simp]: "quiet (throw e)"
  by (simp add: quiet_def throw_def)

lemma quiet_read [intro!, simp]: "quiet (read g)"
  by (simp add: quiet_def read_def)

lemma quiet_lift [intro!, simp]: "quiet (lift r)"
  by (cases r) (simp_all add: lift_def)

lemma quiet_log [intro!, simp]: "quiet (log msg a)"
  by (simp add: quiet_def log_apply same_but_console_def)

lemma quiet_andThen [intro!]:
  assumes "quiet m" and "\<And>x. quiet (f x)"
  shows "quiet (andThen m f)"
  unfolding quiet_def
proof
  fix s
  show "same_but_console s (snd (andThen m f s))"
  proof (cases "m s")
    case (Pair r s')
    have a: "same_but_console s s'"
      using assms(1) Pair by (auto simp: quiet_def dest: spec[of _ s])
    show ?thesis
    proof (cases r)
      case (Inl e)
      then show ?thesis using Pair a by (simp add: andThen_def)
    next
      case (Inr x)
      have "same_but_console s' (snd (f x s'))"
        using assms(2)[of x] by (simp add: quiet_def)
      then show ?thesis
        using Pair Inr a by (auto simp: andThen_def intro: same_trans)
    qed
  qed
qed

lemma quiet_call [intro!, simp]: "quiet (call m q p r rp)"
  by (cases m) (auto simp: call_def)

lemma quiet_getRoute [intro!, simp]: "quiet (getRoute p)"
  by (auto simp: getRoute_def routeExists_def)

lemma quiet_orCurrentRoutePath [intro!, simp]: "quiet (orCurrentRoutePath rp)"
  by (auto simp: orCurrentRoutePath_def getCurrentRoutePath_def split: option.split)

lemma quiet_getPermissionsFromRoute [intro!, simp]: "quiet (getPermissionsFromRoute rp)"
  by (auto simp: getPermissionsFromRoute_def)

lemma quiet_getPermissionsSync [intro!, simp]: "quiet (getPermissionsSync rp)"
  by (auto simp: getPermissionsSync_def cache_get_def split: jsval.split)

lemma quiet_hasCustomRouteAuthorization [intro!, simp]:
  "quiet (hasCustomRouteAuthorization p)"
  by (auto simp: hasCustomRouteAuthorization_def)

lemma quiet_getCustomRouteAuthorization [intro!, simp]:
  "quiet (getCustomRouteAuthorization rp)"
  by (auto simp: getCustomRouteAuthorization_def)

lemma quiet_getCustomAuthorization [intro!, simp]: "quiet getCustomAuthorization"
  by (auto simp: getCustomAuthorization_def hasCustomAuthorization_def)

lemma quiet_isAuthorized_chain [intro!, simp]:
  "quiet (isAuthorized_chain q p rt params perms)"
  by (auto simp: isAuthorized_chain_def hasCustomAuthorization_def getDefaultAccess_def
      split: jsval.split)

lemma quiet_isAuthorized [intro!, simp]: "quiet (isAuthorized q rp)"
  by (auto simp: isAuthorized_def)

lemma quietD: "quiet m \<Longrightarrow> snd (m s) = s\<lparr>console := console (snd (m s))\<rparr>"
  by (simp add: quiet_def same_but_console_def)

subsection \<open>Looking a route up\<close>

lemma return_apply: "return x s = (Inr x, s)"
  by (simp add: return_def)

lemma throw_apply: "throw e s = (Inl e, s)"
  by (simp add: throw_def)

lemma andThen_assoc [simp]:
  "andThen (andThen m f) g = andThen m (\<lambda>x. andThen (f x) g)"
  by (rule ext) (simp add: andThen_def split: prod.split sum.split)

lemma orCurrentRoutePath_apply: "orCurrentRoutePath rp s = (Inr (path_of rp s), s)"
  by (simp add: orCurrentRoutePath_def path_of_def getCurrentRoutePath_def read_def return_def
      split: option.split)

lemma andThen_orCurrentRoutePath [simp]:
  "andThen (orCurrentRoutePath rp) f s = f (path_of rp s) s"
  by (simp add: andThen_def orCurrentRoutePath_apply)

lemma getRoute_Some: "routes s p = Some rt \<Longrightarrow> getRoute p s = (Inr rt, s)"
  by (simp add: getRoute_def routeExists_def read_def)

lemma getRoute_None: "routes s p = None \<Longrightarrow> getRoute p s = (Inl (CouldNotFindRoute p), s)"
  by (simp add: getRoute_def routeExists_def throw_def)

lemma andThen_getRoute_Some [simp]:
  "routes s p = Some rt \<Longrightarrow> andThen (getRoute p) f s = f rt s"
  by (simp add: andThen_def getRoute_Some)

lemma andThen_getRoute_None [simp]:
  "routes s p = None \<Longrightarrow> andThen (getRoute p) f s = (Inl (CouldNotFindRoute p), s)"
  by (simp add: andThen_def getRoute_None)

lemma path_of_Some [simp]: "p \<noteq> [] \<Longrightarrow> path_of (Some p) s = p"
  by (simp add: path_of_def)

lemma path_of_None [simp]: "path_of None s = currentPath s"
  by (simp add: path_of_def)

lemma path_of_path_of [simp]: "path_of (Some (path_of rp s)) s = path_of rp s"
  by (simp add: path_of_def split: option.split)

lemma route_as_string_simp [simp]: "route_as_string rt = ''[object Object]''"
  by (simp add: route_as_string_def)

lemma same_fields:
  assumes "same_but_console s s'"
  shows "routes s' = routes s" "currentPath s' = currentPath s"
    "currentParams s' = currentParams s" "locationPath s' = locationPath s"
    "navigation s' = navigation s" "transport s' = transport s"
    "requests s' = requests s" "callables s' = callables s"
    "defaultPermissions s' = defaultPermissions s"
    "permissionsCache s' = permissionsCache s"
    "globalCustomAuthorization s' = globalCustomAuthorization s"
    "defaultAccess s' = defaultAccess s" "debug s' = debug s"
    "inherited s' = inherited s"
proof -
  have e: "s' = s\<lparr>console := console s'\<rparr>"
    using assms by (simp add: same_but_console_def)
  show "routes s' = routes s" by (subst e) simp
  show "currentPath s' = currentPath s" by (subst e) simp
  show "currentParams s' = currentParams s" by (subst e) simp
  show "locationPath s' = locationPath s" by (subst e) simp
  show "navigation s' = navigation s" by (subst e) simp
  show "transport s' = transport s" by (subst e) simp
  show "requests s' = requests s" by (subst e) simp
  show "callables s' = callables s" by (subst e) simp
  show "defaultPermissions s' = defaultPermissions s" by (subst e) simp
  show "permissionsCache s' = permissionsCache s" by (subst e) simp
  show "globalCustomAuthorization s' = globalCustomAuthorization s" by (subst e) simp
  show "defaultAccess s' = defaultAccess s" by (subst e) simp
  show "debug s' = debug s" by (subst e) simp
  show "inherited s' = inherited s" by (subst e) simp
qed

lemma quiet_same: "quiet m \<Longrightarrow> same_but_console s (snd (m s))"
  by (simp add: quiet_def)

lemma same_path_of: "same_but_console s s' \<Longrightarrow> path_of rp s' = path_of rp s"
  by (simp add: path_of_def same_fields(2) split: option.split)

subsection \<open>The resolver on known and unknown routes\<close>

lemma getPermissionsFromRoute_unknown:
  "routes s (path_of rp s) = None \<Longrightarrow>
   getPermissionsFromRoute rp s = (Inl (CouldNotFindRoute (path_of rp s)), s)"
  by (simp add: getPermissionsFromRoute_def)

lemma getPermissionsFromRoute_known:
  "routes s (path_of rp s) = Some rt \<Longrightarrow>
   getPermissionsFromRoute rp s =
     (Inr (route_permissions s rt),
      if \<not> truthy (permissions rt) \<and> debug s
      then s\<lparr>console := console s @ [(''Using default permissions.'', None)]\<rparr> else s)"
  by (simp add: getPermissionsFromRoute_def andThen_log return_apply route_permissions_def)

lemma getPermissionsSync_unknown:
  "routes s (path_of rp s) = None \<Longrightarrow>
   getPermissionsSync rp s = (Inl (CouldNotFindRoute (path_of rp s)), s)"
  by (simp add: getPermissionsSync_def
      andThen_Inl[of "getPermissionsFromRoute rp" s, OF getPermissionsFromRoute_unknown])

lemma getPermissions_unknown:
  "routes s (path_of rp s) = None \<Longrightarrow>
   getPermissions rp s = (Inl (CouldNotFindRoute (path_of rp s)), s)"
  by (simp add: getPermissions_def
      andThen_Inl[of "getPermissionsFromRoute rp" s, OF getPermissionsFromRoute_unknown])

lemma setPermissions_unknown:
  "routes s (path_of rp s) = None \<Longrightarrow>
   setPermissions v rp s = (Inl (CouldNotFindRoute (path_of rp s)), s)"
  by (simp add: setPermissions_def)

lemma isAuthorized_unknown:
  "routes s (path_of rp s) = None \<Longrightarrow>
   isAuthorized q rp s = (Inl (CouldNotFindRoute (path_of rp s)), s)"
  by (simp add: isAuthorized_def)

lemma getAccessDeniedRouteFor_unknown:
  "routes s (path_of rp s) = None \<Longrightarrow>
   getAccessDeniedRouteFor rp s = (Inl (CouldNotFindRoute (path_of rp s)), s)"
  by (simp add: getAccessDeniedRouteFor_def)

lemma setAccessDeniedRouteFor_unknown:
  "routes s (path_of rp s) = None \<Longrightarrow>
   setAccessDeniedRouteFor v rp s = (Inl (CouldNotFindRoute (path_of rp s)), s)"
  by (simp add: setAccessDeniedRouteFor_def)

lemma getPermissionsSync_known:
  assumes "routes s (path_of rp s) = Some rt"
  shows "fst (getPermissionsSync rp s) = Inr (resolveSync s rt)"
  using assms
  by (simp add: getPermissionsSync_def
      andThen_Inr[of "getPermissionsFromRoute rp" s, OF getPermissionsFromRoute_known]
      resolveSync_def cache_get_def andThen_log return_apply
      split: jsval.split)

lemma getPermissionsSync_known_pair:
  assumes "routes s (path_of rp s) = Some rt"
  obtains s1 where "getPermissionsSync rp s = (Inr (resolveSync s rt), s1)"
    and "same_but_console s s1"
proof -
  have "fst (getPermissionsSync rp s) = Inr (resolveSync s rt)"
    using assms by (rule getPermissionsSync_known)
  moreover have "same_but_console s (snd (getPermissionsSync rp s))"
    by (rule quiet_same) simp
  ultimately show thesis
    using that[of "snd (getPermissionsSync rp s)"] by (metis prod.collapse)
qed

lemma isAuthorized_known:
  assumes "routes s (path_of rp s) = Some rt"
  obtains s1 where "same_but_console s s1"
    and "getPermissionsSync (Some (path_of rp s)) s = (Inr (resolveSync s rt), s1)"
    and "isAuthorized q rp s =
           isAuthorized_chain q (path_of rp s) rt (currentParams s)
             (or_empty_object (resolveSync s rt)) s1"
proof -
  let ?p = "path_of rp s"
  have k: "routes s (path_of (Some ?p) s) = Some rt"
    using assms by simp
  obtain s1 where g: "getPermissionsSync (Some ?p) s = (Inr (resolveSync s rt), s1)"
    and sm: "same_but_console s s1"
    using getPermissionsSync_known_pair[OF k] by blast
  have "isAuthorized q rp s =
          isAuthorized_chain q ?p rt (currentParams s) (or_empty_object (resolveSync s rt)) s1"
    using assms
    by (simp add: isAuthorized_def andThen_Inr[of "getPermissionsSync (Some ?p)" s, OF g])
  then show thesis using sm g that by blast
qed

lemma chain_default:
  assumes "routes s p = Some rt"
      and "\<not> (p \<noteq> [] \<and> is_function (customAuthorization rt))"
      and "\<not> is_function (globalCustomAuthorization s)"
      and "\<not> is_string q" and "\<not> is_function q"
  shows "fst (isAuthorized_chain q p rt params perms s) = Inr (defaultAccess s)"
  using assms
  by (cases q)
     (auto simp: isAuthorized_chain_def hasCustomRouteAuthorization_def
       hasCustomAuthorization_def getDefaultAccess_def andThen_log read_def return_apply)

lemmas test_defs = test_state_def initial_def test_routes_def test_registered_def
  object_prototype_names_def object_members_def no_fields_def
  test_callables_def test_transport_def with_permissions_def with_object_route_def
  with_root_strategy_def readme_state_def failing_state_def allowing_state_def
  with_global_strategy_def

subsection \<open>The matcher on the document of the specification\<close>

text \<open>
  Claim C8. For the document
  \<open>{GET: {page: [1, 2, 3], other: [1, "a/b"]}, PUT: {page: [1]}}\<close>,
  \<open>findIn("GET/page/1", doc)\<close> is true, \<open>findIn("GET/page/4", doc)\<close> is false,
  \<open>findIn("PUT/page", doc)\<close> is true, \<open>findIn("GET#other#a/b", doc, "#")\<close> is true and
  \<open>findIn("GET#page/1", doc, "#")\<close> is false. This holds in every runtime in which no
  value inherits a member named \<open>4\<close>, \<open>a/b\<close> or \<open>page/1\<close>; the other tokens
  name properties that the cursor holds itself.
\<close>

theorem findIn_matcher_doc:
  assumes "\<And>v. inh v ''4'' = Undefined"
      and "\<And>v. inh v ''a/b'' = Undefined"
      and "\<And>v. inh v ''page/1'' = Undefined"
  shows "findIn inh ''GET/page/1'' matcher_doc None = Inr True \<and>
         findIn inh ''GET/page/4'' matcher_doc None = Inr False \<and>
         findIn inh ''PUT/page'' matcher_doc None = Inr True \<and>
         findIn inh ''GET#other#a/b'' matcher_doc (Some ''#'') = Inr True \<and>
         findIn inh ''GET#page/1'' matcher_doc (Some ''#'') = Inr False"
  using assms
  by (simp add: findIn_def matcher_doc_def split_def delimiter_or_slash_def indexed_def
      array_index_def is_digit_def)

theorem findIn_matcher_doc_witness:
  "findIn object_members ''GET/page/1'' matcher_doc None = Inr True \<and>
   findIn object_members ''GET/page/4'' matcher_doc None = Inr False \<and>
   findIn object_members ''PUT/page'' matcher_doc None = Inr True \<and>
   findIn object_members ''GET#other#a/b'' matcher_doc (Some ''#'') = Inr True \<and>
   findIn object_members ''GET#page/1'' matcher_doc (Some ''#'') = Inr False"
  using findIn_matcher_doc[of object_members]
  by (simp add: object_members_def object_prototype_names_def)

subsection \<open>Permissions of a route, and unknown routes\<close>

text \<open>
  Whenever the route table yields a route under the path of a call,
  \<open>getPermissionsFromRoute\<close> returns the route's own permissions field if it is truthy
  and the process-wide default permissions otherwise. Whenever the table yields
  nothing under the path, every route-scoped operation raises the error
  \<open>Could not find route\<close> instead of returning a value, and leaves the state as it
  was. The path of a call is the one given or, when none or the empty one is given,
  the current path.
\<close>

theorem getPermissionsFromRoute_and_unknown_routes:
  "(routes s (path_of routePath s) = Some rt \<longrightarrow>
      fst (getPermissionsFromRoute routePath s) =
        Inr (if truthy (permissions rt) then permissions rt else defaultPermissions s)) \<and>
   (routes s (path_of routePath s) = None \<longrightarrow>
      getPermissionsFromRoute routePath s = (Inl (CouldNotFindRoute (path_of routePath s)), s) \<and>
      getPermissionsSync routePath s = (Inl (CouldNotFindRoute (path_of routePath s)), s) \<and>
      getPermissions routePath s = (Inl (CouldNotFindRoute (path_of routePath s)), s) \<and>
      setPermissions v routePath s = (Inl (CouldNotFindRoute (path_of routePath s)), s) \<and>
      isAuthorized q routePath s = (Inl (CouldNotFindRoute (path_of routePath s)), s) \<and>
      getAccessDeniedRouteFor routePath s =
        (Inl (CouldNotFindRoute (path_of routePath s)), s) \<and>
      setAccessDeniedRouteFor v routePath s =
        (Inl (CouldNotFindRoute (path_of routePath s)), s))"
  by (simp add: getPermissionsFromRoute_known getPermissionsFromRoute_unknown
      getPermissionsSync_unknown getPermissions_unknown setPermissions_unknown
      isAuthorized_unknown getAccessDeniedRouteFor_unknown setAccessDeniedRouteFor_unknown
      route_permissions_def)

theorem getPermissionsFromRoute_and_unknown_routes_witness:
  "fst (getPermissionsFromRoute (Some ''/route-default-auth'') (test_state ''/'')) =
     Inr (Arr [Str ''/route-default-auth'']) \<and>
   fst (getPermissionsFromRoute (Some ''/no-permissions'') (test_state ''/'')) =
     Inr Undefined \<and>
   fst (getPermissionsFromRoute (Some ''/non-existent-route'') (test_state ''/'')) =
     Inl (CouldNotFindRoute ''/non-existent-route'') \<and>
   fst (isAuthorized (Str ''canEdit/2'') (Some ''/non-existent-route'') (test_state ''/'')) =
     Inl (CouldNotFindRoute ''/non-existent-route'')"
  using getPermissionsFromRoute_and_unknown_routes
      [of "test_state ''/''" "Some ''/route-default-auth''"
          "no_fields\<lparr>permissions := Arr [Str ''/route-default-auth'']\<rparr>"]
    getPermissionsFromRoute_and_unknown_routes
      [of "test_state ''/''" "Some ''/no-permissions''" no_fields]
    getPermissionsFromRoute_and_unknown_routes
      [of "test_state ''/''" "Some ''/non-existent-route''" _ _ "Str ''canEdit/2''"]
  by (simp add: test_defs)

text \<open>
  Claim C9, evaluated where the code departs from it. The test suite registers no
  route \<open>toString\<close>, yet the route table, a plain object, inherits a member of that
  name, which \<open>routeExists\<close> takes for a route: asked about the route \<open>toString\<close>,
  \<open>getPermissionsFromRoute\<close> returns the default permissions, \<open>isAuthorized\<close> the
  default access and \<open>getAccessDeniedRouteFor\<close> the default target, where the claim
  has each of them raise. An unknown route that names no inherited member raises, and
  a registered route yields its permissions, as the claim says.
\<close>

theorem unknown_route_inherited_evaluated:
  "map_of test_registered ''toString'' = None \<and>
   fst (getPermissionsFromRoute (Some ''toString'') (test_state ''/'')) = Inr Undefined \<and>
   fst (getPermissionsSync (Some ''toString'') (test_state ''/'')) = Inr Undefined \<and>
   fst (getPermissions (Some ''toString'') (test_state ''/'')) = Inr (Resolved Undefined) \<and>
   fst (isAuthorized Undefined (Some ''toString'') (test_state ''/'')) = Inr False \<and>
   fst (getAccessDeniedRouteFor (Some ''toString'') (test_state ''/'')) =
     Inr (Str ''/forbidden'') \<and>
   fst (getPermissionsFromRoute (Some ''/non-existent-route'') (test_state ''/'')) =
     Inl (CouldNotFindRoute ''/non-existent-route'') \<and>
   fst (getPermissionsFromRoute (Some ''/route-default-auth'') (test_state ''/'')) =
     Inr (Arr [Str ''/route-default-auth''])"
  by code_simp

subsection \<open>The setter of the denial target\<close>

text \<open>
  Claim C10, amended. For every route path that exists in the route table, provided no
  route is registered under the path \<open>[object Object]\<close> (the string a route object
  becomes when it is used as a key), \<open>setAccessDeniedRouteFor\<close> raises an error and
  leaves the state, and with it the route's \<open>deniedRoute\<close> field, as it was.
\<close>

theorem setAccessDeniedRouteFor_raises:
  assumes "routes s (path_of routePath s) = Some rt"
      and "routes s ''[object Object]'' = None"
  shows "setAccessDeniedRouteFor target routePath s =
           (Inl (UnknownRouteForDeniedRoute ''[object Object]''), s)"
  using assms by (simp add: setAccessDeniedRouteFor_def throw_apply)

theorem setAccessDeniedRouteFor_raises_witness:
  "routes (test_state ''/'') ''/test-custom-redirect'' \<noteq> None \<and>
   fst (setAccessDeniedRouteFor (Str ''/denied'') (Some ''/test-custom-redirect'')
          (test_state ''/'')) =
     Inl (UnknownRouteForDeniedRoute ''[object Object]'')"
  using setAccessDeniedRouteFor_raises
      [of "test_state ''/''" "Some ''/test-custom-redirect''"
          "no_fields\<lparr>permissions := Obj [],
                      deniedRoute := Str ''/a-different-access-denied''\<rparr>"
          "Str ''/denied''"]
  by (simp add: test_defs)

text \<open>
  The claim as stated fails on a table that has a route under the path
  \<open>[object Object]\<close>: there the setter returns and the route \<open>/\<close> gets the new target.
\<close>

theorem setAccessDeniedRouteFor_counterexample:
  "routes with_object_route ''/'' \<noteq> None \<and>
   fst (setAccessDeniedRouteFor (Str ''/denied'') (Some ''/'') with_object_route) = Inr () \<and>
   map_option deniedRoute
     (routes (snd (setAccessDeniedRouteFor (Str ''/denied'') (Some ''/'') with_object_route))
        ''/'') = Some (Str ''/denied'')"
  by (simp add: setAccessDeniedRouteFor_def modify_def test_defs)

subsection \<open>The default access policy\<close>

text \<open>
  Claim C6. When the query is neither a string nor a function (it is absent, say), the
  route has no override strategy and no global override strategy is set,
  \<open>isAuthorized\<close> returns the current default access, which is deny (false) in the
  initial state. \<open>setDefaultAccess\<close> sets this boolean to the truthiness of its
  argument, which is what \<open>isAuthorized\<close> returns from then on, and touches neither
  the cache nor the transport.
\<close>

theorem isAuthorized_default_access:
  assumes "routes s (path_of routePath s) = Some rt"
      and "\<not> is_function (customAuthorization rt)"
      and "\<not> is_function (globalCustomAuthorization s)"
      and "\<not> is_string query" and "\<not> is_function query"
  shows "fst (isAuthorized query routePath s) = Inr (defaultAccess s) \<and>
         defaultAccess (initial rts cur params loc http funs inh) = False \<and>
         setDefaultAccess allowOrDeny s =
           (Inr (), s\<lparr>defaultAccess := truthy allowOrDeny\<rparr>) \<and>
         fst (isAuthorized query routePath (snd (setDefaultAccess allowOrDeny s))) =
           Inr (truthy allowOrDeny) \<and>
         permissionsCache (snd (setDefaultAccess allowOrDeny s)) = permissionsCache s \<and>
         requests (snd (setDefaultAccess allowOrDeny s)) = requests s"
proof -
  have dflt: "fst (isAuthorized query routePath t) = Inr (defaultAccess t)"
    if r: "routes t (path_of routePath t) = Some rt"
      and c: "\<not> is_function (customAuthorization rt)"
      and g: "\<not> is_function (globalCustomAuthorization t)" for t
  proof -
    obtain t1 where sm: "same_but_console t t1"
      and eq: "isAuthorized query routePath t =
                 isAuthorized_chain query (path_of routePath t) rt (currentParams t)
                   (or_empty_object (resolveSync t rt)) t1"
      using isAuthorized_known[OF r] by blast
    have "fst (isAuthorized_chain query (path_of routePath t) rt (currentParams t)
                 (or_empty_object (resolveSync t rt)) t1) = Inr (defaultAccess t1)"
      using r c g assms(4,5) same_fields[OF sm] by (intro chain_default) simp_all
    then show ?thesis using eq same_fields(12)[OF sm] by simp
  qed
  let ?t = "s\<lparr>defaultAccess := truthy allowOrDeny\<rparr>"
  have set: "setDefaultAccess allowOrDeny s = (Inr (), ?t)"
    by (simp add: setDefaultAccess_def modify_def)
  have p: "path_of routePath ?t = path_of routePath s"
    by (simp add: path_of_def split: option.split)
  have "fst (isAuthorized query routePath ?t) = Inr (defaultAccess ?t)"
    using assms(1-3) by (intro dflt) (simp_all add: p)
  then show ?thesis
    using dflt[OF assms(1-3)] set by (simp add: initial_def)
qed

theorem isAuthorized_default_access_witness:
  "fst (isAuthorized Undefined None (test_state ''/no-permissions'')) = Inr False \<and>
   fst (isAuthorized Undefined None
          (snd (setDefaultAccess (Bool True) (test_state ''/no-permissions'')))) = Inr True \<and>
   fst (isAuthorized Undefined None
          (snd (setDefaultAccess (Bool False)
             (snd (setDefaultAccess (Bool True) (test_state ''/no-permissions'')))))) =
     Inr False"
  using isAuthorized_default_access
      [of "test_state ''/no-permissions''" None no_fields Undefined _ _ _ _ _ _ _ "Bool True"]
    isAuthorized_default_access
      [of "snd (setDefaultAccess (Bool True) (test_state ''/no-permissions''))" None no_fields
          Undefined _ _ _ _ _ _ _ "Bool False"]
  by (simp add: test_defs setDefaultAccess_def modify_def)

subsection \<open>What a decision leaves untouched, and what it decides on\<close>








subsection \<open>The strategy of a route other than the current one\<close>

text \<open>
  Claim C1, evaluated where the code departs from it. The route \<open>/override-auth\<close>
  has a strategy, which answers \<open>true\<close> to the query \<open>1\<close>. Asked about that route
  while the current route is \<open>/\<close>, \<open>isAuthorized\<close> raises an error when \<open>/\<close> has
  no strategy, and returns the answer of the strategy of \<open>/\<close> when it has one. Asked
  while \<open>/override-auth\<close> is the current route, it returns the answer of the route's
  strategy.
\<close>

theorem isAuthorized_other_route_evaluated:
  "map_option customAuthorization (routes (test_state ''/'') ''/override-auth'') =
     Some (Fun 0) \<and>
   test_callables 0 (Num 1) (Arr [Num 1, Num 2, Num 3]) no_fields (Obj []) =
     Inr (Bool True) \<and>
   fst (isAuthorized (Num 1) (Some ''/override-auth'') (test_state ''/'')) =
     Inl (RouteCustomAuthorizationNotSet ''/'') \<and>
   fst (isAuthorized (Num 1) (Some ''/override-auth'') (with_root_strategy 2)) =
     Inr False \<and>
   fst (isAuthorized (Num 1) (Some ''/override-auth'') (test_state ''/override-auth'')) =
     Inr True"
  by code_simp

subsection \<open>Sequence membership and hierarchical match\<close>

text \<open>
  Claim C5, evaluated. With no override strategy and the permissions
  \<open>["/a", "/b"]\<close>, \<open>isAuthorized("/a")\<close> is true and \<open>isAuthorized("/c")\<close> is false.
  With the permissions \<open>{canEdit: [1, 2]}\<close>, \<open>isAuthorized("canEdit/5")\<close> is false,
  and so is \<open>isAuthorized("canEdit/2")\<close>, where the claim says true: the token \<open>2\<close>
  is no index of the two-element sequence and, being a string, equals neither of its
  numbers. \<open>isAuthorized("canEdit/0")\<close> is true.
\<close>

theorem isAuthorized_dispatch_evaluated:
  "fst (isAuthorized (Str ''/a'') None (with_permissions (Arr [Str ''/a'', Str ''/b'']))) =
     Inr True \<and>
   fst (isAuthorized (Str ''/c'') None (with_permissions (Arr [Str ''/a'', Str ''/b'']))) =
     Inr False \<and>
   fst (isAuthorized (Str ''canEdit/2'') None
          (with_permissions (Obj [(''canEdit'', Arr [Num 1, Num 2])]))) = Inr False \<and>
   fst (isAuthorized (Str ''canEdit/5'') None
          (with_permissions (Obj [(''canEdit'', Arr [Num 1, Num 2])]))) = Inr False \<and>
   fst (isAuthorized (Str ''canEdit/0'') None
          (with_permissions (Obj [(''canEdit'', Arr [Num 1, Num 2])]))) = Inr True"
  by code_simp

subsection \<open>The matcher and the descent\<close>

lemma indexOf_Some: "Str t \<in> set xs \<Longrightarrow> \<exists>i. indexOf xs t = Some i \<and> i < length xs \<and> xs ! i = Str t"
  by (induction xs) auto

lemma indexOf_None: "Str t \<notin> set xs \<Longrightarrow> indexOf xs t = None"
  by (induction xs) auto

lemma indexOf_SomeD: "indexOf xs t = Some i \<Longrightarrow> i < length xs \<and> xs ! i = Str t"
  by (induction xs arbitrary: i) (auto split: if_splits)

lemma reaches_loop: "reaches inh c ts final \<Longrightarrow> findIn_loop inh c ts = Inr final"
proof (induction rule: reaches.induct)
  case (reaches_end cursor)
  show ?case by simp
next
  case (reaches_property cursor token v rest final)
  then show ?case by simp
next
  case (reaches_element xs token rest final)
  obtain i where "indexOf xs token = Some i" "xs ! i = Str token"
    using indexOf_Some[OF reaches_element.hyps(2)] by blast
  with reaches_element show ?case by simp
qed

lemma loop_reaches:
  "findIn_loop inh c ts = Inr final \<Longrightarrow> truthy final \<Longrightarrow> reaches inh c ts final"
proof (induction ts arbitrary: c)
  case Nil
  then show ?case by (simp add: reaches_end)
next
  case (Cons token rest)
  show ?case
  proof (cases "getProp inh c token")
    case (Inl e)
    with Cons.prems show ?thesis by simp
  next
    case (Inr v)
    show ?thesis
    proof (cases "v = Undefined")
      case False
      with Inr Cons.prems have "findIn_loop inh v rest = Inr final" by simp
      then have "reaches inh v rest final" using Cons.prems(2) by (rule Cons.IH)
      with Inr False show ?thesis by (rule reaches_property)
    next
      case True
      show ?thesis
      proof (cases c)
        case (Arr xs)
        show ?thesis
        proof (cases "indexOf xs token")
          case None
          with Inr True Arr Cons.prems show ?thesis by simp
        next
          case (Some i)
          then have el: "xs ! i = Str token" "i < length xs" by (simp_all add: indexOf_SomeD)
          then have mem: "Str token \<in> set xs" by (metis nth_mem)
          have "findIn_loop inh (Str token) rest = Inr final"
            using Inr True Arr Some el Cons.prems(1) by simp
          then have "reaches inh (Str token) rest final"
            using Cons.prems(2) by (rule Cons.IH)
          with Inr True Arr mem show ?thesis by (auto intro: reaches_element)
        qed
      qed (use Inr True Cons.prems in auto)
    qed
  qed
qed

lemma getProp_error: "getProp inh c k = Inl e \<Longrightarrow> e = TypeError"
  by (cases c) auto

lemma loop_error: "findIn_loop inh c ts = Inl e \<Longrightarrow> e = TypeError"
proof (induction ts arbitrary: c)
  case Nil
  then show ?case by simp
next
  case (Cons token rest)
  then show ?case
    by (auto split: sum.splits if_splits jsval.splits option.splits dest: getProp_error)
qed

text \<open>
  The matcher answers true exactly when the descent consumes every token of the query
  and ends on a truthy cursor; otherwise it answers false or raises a \<open>TypeError\<close>.
  This holds in every runtime.
\<close>

theorem findIn_descent:
  "(findIn inh query document delimiter = Inr True \<longleftrightarrow>
      (\<exists>final. reaches inh document (split query (delimiter_or_slash delimiter)) final \<and>
         truthy final)) \<and>
   (findIn inh query document delimiter = Inr True \<or>
    findIn inh query document delimiter = Inr False \<or>
    findIn inh query document delimiter = Inl TypeError)"
proof -
  let ?ts = "split query (delimiter_or_slash delimiter)"
  have a: "findIn inh query document delimiter = Inr True \<longleftrightarrow>
      (\<exists>final. reaches inh document ?ts final \<and> truthy final)"
  proof
    assume "findIn inh query document delimiter = Inr True"
    then obtain final where "findIn_loop inh document ?ts = Inr final" "truthy final"
      by (auto simp: findIn_def split: sum.splits)
    then show "\<exists>final. reaches inh document ?ts final \<and> truthy final"
      using loop_reaches by blast
  next
    assume "\<exists>final. reaches inh document ?ts final \<and> truthy final"
    then show "findIn inh query document delimiter = Inr True"
      by (auto simp: findIn_def dest: reaches_loop)
  qed
  have b: "findIn inh query document delimiter = Inr True \<or>
    findIn inh query document delimiter = Inr False \<or>
    findIn inh query document delimiter = Inl TypeError"
    by (auto simp: findIn_def split: sum.splits dest: loop_error)
  show ?thesis using a b by simp
qed

theorem findIn_descent_witness:
  "(\<exists>final. reaches object_members matcher_doc (split ''GET/page/1'' ''/'') final \<and>
      truthy final) \<and>
   \<not> (\<exists>final. reaches object_members matcher_doc (split ''GET/page/3'' ''/'') final \<and>
      truthy final)"
proof -
  have "findIn object_members ''GET/page/1'' matcher_doc None = Inr True"
    by code_simp
  moreover have "findIn object_members ''GET/page/3'' matcher_doc None \<noteq> Inr True"
    by code_simp
  ultimately show ?thesis
    using findIn_descent[of object_members "''GET/page/1''" matcher_doc None]
      findIn_descent[of object_members "''GET/page/3''" matcher_doc None]
    by (simp add: delimiter_or_slash_def)
qed

text \<open>
  Claim C2, evaluated where the code departs from it. In the document
  \<open>{a: ["x", "y"]}\<close> the sequence holds neither \<open>0\<close> nor \<open>length\<close>, and the empty
  mapping has no key \<open>toString\<close>: the claim ends each of these descents with ``not
  found'' and the result false. The source answers true, since it reads
  \<open>cursor[token]\<close> on every cursor, which finds the indices and the length of a
  sequence and the members a value inherits, before it looks for an element. In
  \<open>{a: null}\<close> the token \<open>b\<close> is read off \<open>null\<close>, which raises a \<open>TypeError\<close>
  where the claim answers false. An element of the sequence is found, and a token that
  names nothing is not, as the claim says.
\<close>

theorem findIn_probe_evaluated:
  "findIn object_members ''a/0'' (Obj [(''a'', Arr [Str ''x'', Str ''y''])]) None =
     Inr True \<and>
   findIn object_members ''a/length'' (Obj [(''a'', Arr [Str ''x'', Str ''y''])]) None =
     Inr True \<and>
   findIn object_members ''toString'' (Obj []) None = Inr True \<and>
   findIn object_members ''a/b'' (Obj [(''a'', Null)]) None = Inl TypeError \<and>
   findIn object_members ''a/x'' (Obj [(''a'', Arr [Str ''x'', Str ''y''])]) None =
     Inr True \<and>
   findIn object_members ''a/z'' (Obj [(''a'', Arr [Str ''x'', Str ''y''])]) None =
     Inr False"
  by code_simp

subsection \<open>Cache hits\<close>

lemma getPermissionsFromRoute_known_pair:
  assumes "routes s (path_of rp s) = Some rt"
  obtains s0 where "getPermissionsFromRoute rp s = (Inr (route_permissions s rt), s0)"
    and "same_but_console s s0"
  using assms getPermissionsFromRoute_known[OF assms]
  by (cases "\<not> truthy (permissions rt) \<and> debug s") (auto simp: same_but_console_def)

lemma resolves_to:
  assumes "fst (getPermissionsFromRoute rp s) = Inr v"
  obtains rt where "routes s (path_of rp s) = Some rt" and "route_permissions s rt = v"
proof (cases "routes s (path_of rp s)")
  case None
  then show ?thesis using assms by (simp add: getPermissionsFromRoute_unknown)
next
  case (Some rt)
  then show ?thesis using assms that by (simp add: getPermissionsFromRoute_known)
qed

lemma route_permissions_same:
  "same_but_console s s' \<Longrightarrow> route_permissions s' rt = route_permissions s rt"
  by (simp add: route_permissions_def same_fields(9))

lemma resolveSync_same:
  "same_but_console s s' \<Longrightarrow> resolveSync s' rt = resolveSync s rt"
  using same_fields(10)[of s s']
  by (simp add: resolveSync_def route_permissions_same split: jsval.split)

lemma retrievePermissions_apply:
  "retrievePermissions url s =
     (case transport s url of
        Inr d \<Rightarrow>
          (Inr (Resolved d),
           (if debug s
            then s\<lparr>requests := requests s @ [url],
                   console := console s @ [(''Permissions returned from: '', Some (Str url))]\<rparr>
            else s\<lparr>requests := requests s @ [url]\<rparr>)
             \<lparr>permissionsCache := (permissionsCache s)(url \<mapsto> d)\<rparr>)
      | Inl failure \<Rightarrow>
          (Inr (Rejected failure),
           if debug s
           then s\<lparr>requests := requests s @ [url],
                  console := console s @
                    [(''Failed to retrieve permissions from: '', Some (Str url))]\<rparr>
           else s\<lparr>requests := requests s @ [url]\<rparr>))"
  by (simp add: retrievePermissions_def andThen_log cache_put_def modify_def return_apply
      split: sum.split)

lemma getPermissions_known:
  assumes "routes s (path_of rp s) = Some rt"
  obtains s1 where "same_but_console s s1"
    and "getPermissions rp s =
      (case route_permissions s rt of
         Str url \<Rightarrow>
           if resolveSync s rt = Undefined
           then andThen (log ''Retrieving permissions from a URL; expect a promise for route: ''
                           (Some (shown rp))) (\<lambda>_. retrievePermissions url) s1
           else (Inr (Resolved (resolveSync s rt)), s1)
       | _ \<Rightarrow> (Inr (Resolved (resolveSync s rt)), s1))"
proof -
  obtain s0 where f: "getPermissionsFromRoute rp s = (Inr (route_permissions s rt), s0)"
    and sm0: "same_but_console s s0"
    using getPermissionsFromRoute_known_pair[OF assms] by blast
  have k0: "routes s0 (path_of rp s0) = Some rt"
    using assms sm0 by (simp add: same_path_of same_fields(1))
  obtain s1 where g: "getPermissionsSync rp s0 = (Inr (resolveSync s0 rt), s1)"
    and sm1: "same_but_console s0 s1"
    using getPermissionsSync_known_pair[OF k0] by blast
  have r: "resolveSync s0 rt = resolveSync s rt"
    using sm0 by (rule resolveSync_same)
  have "getPermissions rp s =
      (case route_permissions s rt of
         Str url \<Rightarrow>
           if resolveSync s rt = Undefined
           then andThen (log ''Retrieving permissions from a URL; expect a promise for route: ''
                           (Some (shown rp))) (\<lambda>_. retrievePermissions url) s1
           else (Inr (Resolved (resolveSync s rt)), s1)
       | _ \<Rightarrow> (Inr (Resolved (resolveSync s rt)), s1))"
    by (simp add: getPermissions_def andThen_Inr[of "getPermissionsFromRoute rp" s, OF f]
        andThen_Inr[of "getPermissionsSync rp" s0, OF g] r return_apply
        split: jsval.split)
  moreover have "same_but_console s s1"
    using sm0 sm1 by (rule same_trans)
  ultimately show thesis using that by blast
qed

lemma getPermissions_hit:
  assumes "routes s (path_of rp s) = Some rt" and "route_permissions s rt = Str S"
      and "permissionsCache s S = Some d" and "d \<noteq> Undefined"
  obtains s1 where "getPermissions rp s = (Inr (Resolved d), s1)" and "same_but_console s s1"
proof -
  have r: "resolveSync s rt = d"
    using assms by (simp add: resolveSync_def)
  obtain s1 where "same_but_console s s1" "getPermissions rp s = (Inr (Resolved d), s1)"
    using getPermissions_known[OF assms(1)] assms(2,4) r by auto
  then show thesis using that by blast
qed

lemma getPermissions_fetch:
  assumes "routes s (path_of rp s) = Some rt" and "route_permissions s rt = Str S"
      and "permissionsCache s S = None" and "transport s S = Inr d"
  shows "fst (getPermissions rp s) = Inr (Resolved d) \<and>
         requests (snd (getPermissions rp s)) = requests s @ [S] \<and>
         permissionsCache (snd (getPermissions rp s)) S = Some d"
proof -
  have r: "resolveSync s rt = Undefined"
    using assms by (simp add: resolveSync_def)
  obtain s1 where sm: "same_but_console s s1"
    and eq: "getPermissions rp s =
       andThen (log ''Retrieving permissions from a URL; expect a promise for route: ''
                  (Some (shown rp))) (\<lambda>_. retrievePermissions S) s1"
    using getPermissions_known[OF assms(1)] assms(2) r by auto
  show ?thesis
    using assms(4) same_fields[OF sm]
    by (simp add: eq andThen_log retrievePermissions_apply)
qed

lemma getPermissionsFromRoute_same:
  assumes "same_but_console s s'"
  shows "fst (getPermissionsFromRoute rp s') = fst (getPermissionsFromRoute rp s)"
proof (cases "routes s (path_of rp s)")
  case None
  then have "routes s' (path_of rp s') = None"
    using assms by (simp add: same_path_of same_fields(1))
  with None show ?thesis
    using assms by (simp add: getPermissionsFromRoute_unknown same_path_of)
next
  case (Some rt)
  then have "routes s' (path_of rp s') = Some rt"
    using assms by (simp add: same_path_of same_fields(1))
  with Some show ?thesis
    using assms by (simp add: getPermissionsFromRoute_known route_permissions_same)
qed

lemma getPermissions_each_hits:
  assumes "permissionsCache t S = Some d" and "d \<noteq> Undefined"
      and "\<forall>rp\<in>set later. fst (getPermissionsFromRoute rp t) = Inr (Str S)"
  shows "fst (getPermissions_each later t) = map (\<lambda>rp. Inr (Resolved d)) later \<and>
         same_but_console t (snd (getPermissions_each later t))"
  using assms
proof (induction later arbitrary: t)
  case Nil
  then show ?case by simp
next
  case (Cons rp rest)
  obtain rt where k: "routes t (path_of rp t) = Some rt" and v: "route_permissions t rt = Str S"
    using Cons.prems(3) resolves_to[of rp t "Str S"] by auto
  obtain t1 where g: "getPermissions rp t = (Inr (Resolved d), t1)"
    and sm: "same_but_console t t1"
    using getPermissions_hit[OF k v Cons.prems(1,2)] by blast
  have "fst (getPermissions_each rest t1) = map (\<lambda>rp. Inr (Resolved d)) rest \<and>
        same_but_console t1 (snd (getPermissions_each rest t1))"
  proof (rule Cons.IH)
    show "permissionsCache t1 S = Some d"
      using Cons.prems(1) same_fields(10)[OF sm] by simp
    show "d \<noteq> Undefined" by (rule Cons.prems(2))
    show "\<forall>rp\<in>set rest. fst (getPermissionsFromRoute rp t1) = Inr (Str S)"
      using Cons.prems(3) getPermissionsFromRoute_same[OF sm] by simp
  qed
  then show ?case
    using g sm by (auto simp: split: prod.split intro: same_trans)
qed

text \<open>
  Claim C4. Let a route resolve to the source identifier \<open>S\<close>, nothing be cached for
  \<open>S\<close>, and the transport answer \<open>S\<close> with the document \<open>d\<close>. Then
  \<open>getPermissions\<close> for that route issues one request, yields \<open>d\<close> and caches it
  under \<open>S\<close>. In any later state \<open>t\<close> that still holds this cache entry, whatever
  the transport would answer by then, every call of \<open>getPermissions\<close> for a route
  that resolves to \<open>S\<close> yields \<open>d\<close> again, issues no request and leaves the cache as
  it is. \<open>clearPermissionsCache\<close> leaves no entry at all.
\<close>

theorem getPermissions_cached:
  assumes "fst (getPermissionsFromRoute routePath s) = Inr (Str S)"
      and "permissionsCache s S = None"
      and "transport s S = Inr d" and "d \<noteq> Undefined"
      and "permissionsCache t S = permissionsCache (snd (getPermissions routePath s)) S"
      and "\<forall>rp\<in>set later. fst (getPermissionsFromRoute rp t) = Inr (Str S)"
  shows "fst (getPermissions routePath s) = Inr (Resolved d) \<and>
         requests (snd (getPermissions routePath s)) = requests s @ [S] \<and>
         permissionsCache (snd (getPermissions routePath s)) S = Some d \<and>
         fst (getPermissions_each later t) = map (\<lambda>rp. Inr (Resolved d)) later \<and>
         requests (snd (getPermissions_each later t)) = requests t \<and>
         permissionsCache (snd (getPermissions_each later t)) = permissionsCache t \<and>
         permissionsCache (snd (clearPermissionsCache u)) = Map.empty"
proof -
  obtain rt where k: "routes s (path_of routePath s) = Some rt"
    and v: "route_permissions s rt = Str S"
    using assms(1) resolves_to[of routePath s "Str S"] by auto
  have f: "fst (getPermissions routePath s) = Inr (Resolved d) \<and>
         requests (snd (getPermissions routePath s)) = requests s @ [S] \<and>
         permissionsCache (snd (getPermissions routePath s)) S = Some d"
    using k v assms(2,3) by (rule getPermissions_fetch)
  then have c: "permissionsCache t S = Some d"
    using assms(5) by simp
  have h: "fst (getPermissions_each later t) = map (\<lambda>rp. Inr (Resolved d)) later \<and>
         same_but_console t (snd (getPermissions_each later t))"
    using c assms(4,6) by (rule getPermissions_each_hits)
  have "permissionsCache (snd (clearPermissionsCache u)) = Map.empty"
    by (simp add: clearPermissionsCache_def modify_def)
  then show ?thesis
    using f h same_fields(7,10)[of t "snd (getPermissions_each later t)"] by simp
qed


theorem getPermissions_cached_witness:
  "fst (getPermissions (Some ''/grab-from-url'') (test_state ''/'')) = Inr (Resolved (Str ''...'')) \<and>
   fst (getPermissions_each [Some ''/grab-from-url'', Some ''/grab-from-url'']
          ((snd (getPermissions (Some ''/grab-from-url'') (test_state ''/'')))
             \<lparr>transport := (\<lambda>url. Inr (Str ''RESPONSE 2''))\<rparr>)) =
     [Inr (Resolved (Str ''...'')), Inr (Resolved (Str ''...''))] \<and>
   requests (snd (getPermissions_each [Some ''/grab-from-url'', Some ''/grab-from-url'']
          ((snd (getPermissions (Some ''/grab-from-url'') (test_state ''/'')))
             \<lparr>transport := (\<lambda>url. Inr (Str ''RESPONSE 2''))\<rparr>))) =
     [''http://example.com/my-roles'']"
proof -
  let ?S = "''http://example.com/my-roles''"
  let ?s = "test_state ''/''"
  let ?t = "(snd (getPermissions (Some ''/grab-from-url'') ?s))
              \<lparr>transport := (\<lambda>url. Inr (Str ''RESPONSE 2''))\<rparr>"
  have a: "fst (getPermissionsFromRoute (Some ''/grab-from-url'') ?s) = Inr (Str ?S)"
    by code_simp
  have b: "permissionsCache ?s ?S = None"
    by (simp add: test_defs)
  have c: "transport ?s ?S = Inr (Str ''...'')"
    by (simp add: test_defs)
  have d: "Str ''...'' \<noteq> Undefined"
    by simp
  have e: "permissionsCache ?t ?S =
             permissionsCache (snd (getPermissions (Some ''/grab-from-url'') ?s)) ?S"
    by simp
  have f: "\<forall>rp\<in>set [Some ''/grab-from-url'', Some ''/grab-from-url''].
             fst (getPermissionsFromRoute rp ?t) = Inr (Str ?S)"
    by code_simp
  have g: "requests ?t = [?S]"
    using getPermissions_cached[OF a b c d e f] by (simp add: test_defs)
  show ?thesis
    using getPermissions_cached[OF a b c d e f] g by simp
qed

subsection \<open>The navigation gate\<close>













end
